theory Spec2Isabelle
  imports Main
begin

section \<open>Strings\<close>

text \<open>
  A string is a \<^typ>\<open>string\<close>: the list of the bytes of its UTF-8 encoding. A substring
  test on the bytes agrees with the test on the characters, because no UTF-8 encoding of
  one character occurs inside the encoding of another.

  \<open>String.prototype.toLowerCase\<close> is a built-in of the language, with case tables that
  cover all of Unicode; it is not code of this repository. Every function below that calls
  it takes it as its first argument \<open>toLowerCase\<close>, and every theorem holds for each
  function from strings to strings in its place, so for the built-in too.

  On a string of ASCII characters the built-in maps the letters A to Z to a to z and
  leaves the rest; that is \<open>toLowerCase_ascii\<close>. It stands for the built-in only where the
  responder is run on concrete ASCII inputs.
\<close>

definition toLowerChar_ascii :: "char \<Rightarrow> char" where
  "toLowerChar_ascii c =
     (case map_of (zip ''ABCDEFGHIJKLMNOPQRSTUVWXYZ'' ''abcdefghijklmnopqrstuvwxyz'') c of
        Some l \<Rightarrow> l
      | None \<Rightarrow> c)"

definition toLowerCase_ascii :: "string \<Rightarrow> string" where
  "toLowerCase_ascii s = map toLowerChar_ascii s"

text \<open>
  \<open>s.startsWith(p)\<close> and \<open>s.includes(p)\<close>: \<open>p\<close> occurs in \<open>s\<close> at the front, or
  anywhere.
\<close>

fun startsWith :: "string \<Rightarrow> string \<Rightarrow> bool" where
  "startsWith s [] = True"
| "startsWith [] (p # ps) = False"
| "startsWith (c # cs) (p # ps) = (c = p \<and> startsWith cs ps)"

fun str_includes :: "string \<Rightarrow> string \<Rightarrow> bool" where
  "str_includes [] p = startsWith [] p"
| "str_includes (c # cs) p = (startsWith (c # cs) p \<or> str_includes cs p)"

section \<open>Data model\<close>

text \<open>
  \<open>Hospital\<close>, \<open>Department\<close> and \<open>Doctor\<close> are declared in \<open>types.ts\<close>. The records below
  carry the fields the chat page and the chat service read; the type of a doctor is a
  parameter, since no field of a doctor is read.
\<close>

datatype HospitalType = Government | Private

record 'doc Department =
  name :: string
  doctors :: "'doc list"

record 'doc Hospital =
  hospital_name :: string
  location :: string
  state :: string
  hospital_type :: HospitalType
  opdTimings :: string
  departments :: "'doc Department list"

datatype Action = BOOKING_REDIRECT | AMBULANCE_DISPATCH

text \<open>An optional field of \<open>ChatResponse\<close> that the object literal leaves out is \<open>None\<close>.\<close>

record 'doc ChatResponse =
  reply_text :: string
  suggestedHospitals :: "'doc Hospital list option"
  suggestedDoctors :: "'doc list option"
  action :: "Action option"

text \<open>
  How a call of an \<open>async\<close> function settles: the promise is fulfilled with the returned
  value, or rejected with the thrown one. A thrown value is an \<open>Error\<close> object with its
  message, or anything else.
\<close>

datatype thrown = ErrorObject string | OtherValue

datatype 'a settled = Resolved 'a | Rejected thrown

section \<open>The chat service\<close>

text \<open>
  \<open>Object.entries(SYMPTOM_MAP)\<close>: the entries in declaration order (no key is an integer
  index, no key is declared twice).
\<close>

definition SYMPTOM_MAP :: "(string \<times> string) list" where
  "SYMPTOM_MAP =
    [(''heart'', ''Cardiology''),
     (''chest pain'', ''Cardiology''),
     (''breath'', ''Pulmonology''),
     (''cough'', ''Pulmonology''),
     (''skin'', ''Dermatology''),
     (''rash'', ''Dermatology''),
     (''acne'', ''Dermatology''),
     (''stomach'', ''Gastroenterology''),
     (''digest'', ''Gastroenterology''),
     (''bone'', ''Orthopedics''),
     (''fracture'', ''Orthopedics''),
     (''joint'', ''Orthopedics''),
     (''nerv'', ''Neurology''),
     (''brain'', ''Neurology''),
     (''kidney'', ''Nephrology''),
     (''urinary'', ''Urology''),
     (''child'', ''Pediatrics''),
     (''baby'', ''Pediatrics''),
     (''eye'', ''Ophthalmology''),
     (''vision'', ''Ophthalmology''),
     (''lady'', ''Gynecology''),
     (''woman'', ''Gynecology''),
     (''pregnant'', ''Obstetrics''),
     (''cancer'', ''Oncology''),
     (''sugar'', ''Endocrinology''),
     (''diabetes'', ''Endocrinology''),
     (''ent'', ''ENT''),
     (''ear'', ''ENT''),
     (''nose'', ''ENT''),
     (''throat'', ''ENT''),
     (''fever'', ''General Medicine''),
     (''cold'', ''General Medicine''),
     (''flu'', ''General Medicine''),
     (''headache'', ''General Medicine'')]"

text \<open>
  The loop of step 2: \<open>detectedDept\<close> starts as \<open>null\<close>; the first entry whose key occurs
  in \<open>lowerMsg\<close> sets it and breaks.
\<close>

fun detectDept_loop :: "(string \<times> string) list \<Rightarrow> string \<Rightarrow> string option" where
  "detectDept_loop [] lowerMsg = None"
| "detectDept_loop ((key, dept) # entries) lowerMsg =
     (if str_includes lowerMsg key then Some dept else detectDept_loop entries lowerMsg)"

definition detectDept :: "string \<Rightarrow> string option" where
  "detectDept lowerMsg = detectDept_loop SYMPTOM_MAP lowerMsg"

text \<open>
  \<open>[...new Set(xs)]\<close>: the elements of \<open>xs\<close> in the order of their first occurrence, each
  once.
\<close>

definition set_add :: "'a list \<Rightarrow> 'a \<Rightarrow> 'a list" where
  "set_add seen x = (if x \<in> set seen then seen else seen @ [x])"

definition new_Set :: "'a list \<Rightarrow> 'a list" where
  "new_Set xs = foldl set_add [] xs"

definition allLocations :: "'doc Hospital list \<Rightarrow> string list" where
  "allLocations MOCK_HOSPITALS =
     new_Set (map state MOCK_HOSPITALS @ map location MOCK_HOSPITALS)"

text \<open>The loop of step 3 pushes every known location that occurs in the message.\<close>

fun pushLocations ::
  "(string \<Rightarrow> string) \<Rightarrow> string list \<Rightarrow> string \<Rightarrow> string list \<Rightarrow> string list" where
  "pushLocations toLowerCase [] lowerMsg locationsInMsg = locationsInMsg"
| "pushLocations toLowerCase (loc # locs) lowerMsg locationsInMsg =
     pushLocations toLowerCase locs lowerMsg
       (if str_includes lowerMsg (toLowerCase loc) then locationsInMsg @ [loc]
        else locationsInMsg)"

text \<open>The three aliases that follow the loop.\<close>

definition pushAliases :: "string \<Rightarrow> string list \<Rightarrow> string list" where
  "pushAliases lowerMsg l0 =
     (let l1 = (if str_includes lowerMsg ''delhi'' then l0 @ [''Delhi''] else l0);
          l2 = (if str_includes lowerMsg ''mumbai'' then l1 @ [''Maharashtra''] else l1);
          l3 = (if str_includes lowerMsg ''bangalore'' \<or> str_includes lowerMsg ''bengaluru''
                then l2 @ [''Karnataka''] else l2)
      in l3)"

definition detectLocations ::
  "(string \<Rightarrow> string) \<Rightarrow> 'doc Hospital list \<Rightarrow> string \<Rightarrow> string list" where
  "detectLocations toLowerCase MOCK_HOSPITALS lowerMsg =
     pushAliases lowerMsg (pushLocations toLowerCase (allLocations MOCK_HOSPITALS) lowerMsg [])"

text \<open>The two filters of step 4, and the cut to three results.\<close>

definition hasDept :: "(string \<Rightarrow> string) \<Rightarrow> string \<Rightarrow> 'doc Hospital \<Rightarrow> bool" where
  "hasDept toLowerCase detectedDept h =
     list_ex (\<lambda>d. str_includes (toLowerCase (name d)) (toLowerCase detectedDept))
       (departments h)"

definition nearLocation ::
  "(string \<Rightarrow> string) \<Rightarrow> string list \<Rightarrow> 'doc Hospital \<Rightarrow> bool" where
  "nearLocation toLowerCase locationsInMsg h =
     list_ex (\<lambda>loc. str_includes (toLowerCase (state h)) (toLowerCase loc)
                  \<or> str_includes (toLowerCase (location h)) (toLowerCase loc))
       locationsInMsg"

definition relevantHospitals ::
  "(string \<Rightarrow> string) \<Rightarrow> 'doc Hospital list \<Rightarrow> string \<Rightarrow> string list
     \<Rightarrow> 'doc Hospital list" where
  "relevantHospitals toLowerCase MOCK_HOSPITALS detectedDept locationsInMsg =
     (let relevant = filter (hasDept toLowerCase detectedDept) MOCK_HOSPITALS
      in if length locationsInMsg > 0
         then filter (nearLocation toLowerCase locationsInMsg) relevant
         else relevant)"

definition EMERGENCY_TEXT :: string where
  "EMERGENCY_TEXT =
     ''This sounds like an emergency! '' @ [CHR 0xF0, CHR 0x9F, CHR 0x9A, CHR 0xA8]
     @ '' I can help you dispatch an ambulance immediately. Please go to the Ambulance section or call 108.''"

definition FOUND_TEXT :: "string \<Rightarrow> string list \<Rightarrow> string" where
  "FOUND_TEXT detectedDept locationsInMsg =
     ''I noticed you mentioned symptoms related to **'' @ detectedDept
     @ ''**. Here are some top specialists ''
     @ (case locationsInMsg of loc # _ \<Rightarrow> ''near '' @ loc | [] \<Rightarrow> ''available'')
     @ '' for you. '' @ [CHR 0x0A, CHR 0x0A] @ ''You can book a token directly:''"

definition NOT_FOUND_TEXT :: "string \<Rightarrow> string" where
  "NOT_FOUND_TEXT detectedDept =
     ''I understand you need a **'' @ detectedDept
     @ ''** specialist, but I couldn't find any hospitals matching your location criteria in our database. Try searching for a different city.''"

definition FALLBACK_TEXT :: string where
  "FALLBACK_TEXT =
     ''I can help you find a doctor or book an appointment. Please tell me your symptoms and your location (e.g., 'Headache in Delhi').''"

text \<open>\<open>if (detectedDept)\<close>: neither \<open>null\<close> nor the empty string.\<close>

fun truthy :: "string option \<Rightarrow> bool" where
  "truthy None = False"
| "truthy (Some s) = (s \<noteq> [])"

text \<open>
  \<open>ChatService.sendMessage\<close>, on a directory whose hospitals and departments have every
  property the body reads (the next section drops this condition). The hospital directory
  \<open>MOCK_HOSPITALS\<close> of \<open>constants.ts\<close> is a parameter. The wait of 800 ms before the body
  is a promise that is always fulfilled, and every \<open>return\<close> fulfils the promise of the
  call. The \<open>forEach\<close> over the relevant hospitals looks up the matching department of
  each hospital and, when it has doctors, runs over them with a callback that does
  nothing. It assigns to no variable, so on such a directory it does not change the
  result; it is modelled in the next section, where it can throw. On such a directory the
  body of the next section returns the response given here (lemma
  \<open>ChatService_sendMessage_rt_erase\<close>).
\<close>

definition ChatService_sendMessage ::
  "(string \<Rightarrow> string) \<Rightarrow> 'doc Hospital list \<Rightarrow> string \<Rightarrow> string
     \<Rightarrow> 'doc ChatResponse settled" where
  "ChatService_sendMessage toLowerCase MOCK_HOSPITALS message language =
     (let lowerMsg = toLowerCase message in
      if str_includes lowerMsg ''emergency'' \<or> str_includes lowerMsg ''accident''
         \<or> str_includes lowerMsg ''ambulance'' \<or> str_includes lowerMsg ''bleeding''
      then Resolved \<lparr>reply_text = EMERGENCY_TEXT, suggestedHospitals = None,
                     suggestedDoctors = None, action = Some AMBULANCE_DISPATCH\<rparr>
      else
        let detectedDept = detectDept lowerMsg;
            locationsInMsg = detectLocations toLowerCase MOCK_HOSPITALS lowerMsg
        in if truthy detectedDept then
             let topHospitals =
                   take 3 (relevantHospitals toLowerCase MOCK_HOSPITALS (the detectedDept)
                             locationsInMsg)
             in if length topHospitals > 0
                then Resolved \<lparr>reply_text = FOUND_TEXT (the detectedDept) locationsInMsg,
                               suggestedHospitals = Some topHospitals,
                               suggestedDoctors = None, action = None\<rparr>
                else Resolved \<lparr>reply_text = NOT_FOUND_TEXT (the detectedDept),
                               suggestedHospitals = None,
                               suggestedDoctors = None, action = None\<rparr>
           else Resolved \<lparr>reply_text = FALLBACK_TEXT, suggestedHospitals = None,
                          suggestedDoctors = None, action = None\<rparr>)"

section \<open>The chat service on the values of the running program\<close>

text \<open>
  TypeScript's types are gone when the program runs, and \<open>types.ts\<close> and \<open>constants.ts\<close>
  are not at hand: a property that the body reads may be \<open>undefined\<close> in an object of
  the directory. Below, such a property is an option: \<open>None\<close> for \<open>undefined\<close>, or a
  value of the type the body expects. Calling a method on \<open>undefined\<close>, or reading a
  property of it, throws a \<open>TypeError\<close>. The other operations of the body do not throw:
  \<open>includes\<close> is called on a string with a string, and the array methods on arrays. When
  a statement throws, the body stops and the promise of the call is rejected with the
  error.
\<close>

datatype js_error = TypeError

record 'doc Department_rt =
  rt_name :: "string option"
  rt_doctors :: "'doc list option"

record 'doc Hospital_rt =
  rt_hospital_name :: string
  rt_location :: "string option"
  rt_state :: "string option"
  rt_hospital_type :: HospitalType
  rt_opdTimings :: string
  rt_departments :: "'doc Department_rt list option"

record 'doc ChatResponse_rt =
  rt_reply_text :: string
  rt_suggestedHospitals :: "'doc Hospital_rt list option"
  rt_suggestedDoctors :: "'doc list option"
  rt_action :: "Action option"

text \<open>\<open>x.toLowerCase()\<close> for a property \<open>x\<close>.\<close>

fun call_toLowerCase :: "(string \<Rightarrow> string) \<Rightarrow> string option \<Rightarrow> js_error + string" where
  "call_toLowerCase toLowerCase None = Inl TypeError"
| "call_toLowerCase toLowerCase (Some s) = Inr (toLowerCase s)"

text \<open>
  \<open>some\<close>, \<open>filter\<close>, \<open>find\<close> and \<open>forEach\<close> of an array, with a callback that may
  throw. The elements are visited in order and the first throw ends the call; \<open>some\<close>
  and \<open>find\<close> stop at the first element for which the callback returns \<open>true\<close>.
\<close>

fun some_rt :: "('a \<Rightarrow> js_error + bool) \<Rightarrow> 'a list \<Rightarrow> js_error + bool" where
  "some_rt f [] = Inr False"
| "some_rt f (x # xs) =
     (case f x of
        Inl e \<Rightarrow> Inl e
      | Inr b \<Rightarrow> if b then Inr True else some_rt f xs)"

fun filter_rt :: "('a \<Rightarrow> js_error + bool) \<Rightarrow> 'a list \<Rightarrow> js_error + 'a list" where
  "filter_rt f [] = Inr []"
| "filter_rt f (x # xs) =
     (case f x of
        Inl e \<Rightarrow> Inl e
      | Inr b \<Rightarrow>
          (case filter_rt f xs of
             Inl e \<Rightarrow> Inl e
           | Inr ys \<Rightarrow> Inr (if b then x # ys else ys)))"

fun find_rt :: "('a \<Rightarrow> js_error + bool) \<Rightarrow> 'a list \<Rightarrow> js_error + 'a option" where
  "find_rt f [] = Inr None"
| "find_rt f (x # xs) =
     (case f x of
        Inl e \<Rightarrow> Inl e
      | Inr b \<Rightarrow> if b then Inr (Some x) else find_rt f xs)"

fun forEach_rt :: "('a \<Rightarrow> js_error + unit) \<Rightarrow> 'a list \<Rightarrow> js_error + unit" where
  "forEach_rt f [] = Inr ()"
| "forEach_rt f (x # xs) =
     (case f x of
        Inl e \<Rightarrow> Inl e
      | Inr u \<Rightarrow> forEach_rt f xs)"

text \<open>
  Step 3. The known locations are the \<open>state\<close> and \<open>location\<close> properties as they are,
  \<open>undefined\<close> among them; the loop calls \<open>toLowerCase\<close> on each.
\<close>

definition allLocations_rt :: "'doc Hospital_rt list \<Rightarrow> string option list" where
  "allLocations_rt MOCK_HOSPITALS =
     new_Set (map rt_state MOCK_HOSPITALS @ map rt_location MOCK_HOSPITALS)"

fun pushLocations_rt ::
  "(string \<Rightarrow> string) \<Rightarrow> string option list \<Rightarrow> string \<Rightarrow> string list
     \<Rightarrow> js_error + string list" where
  "pushLocations_rt toLowerCase [] lowerMsg locationsInMsg = Inr locationsInMsg"
| "pushLocations_rt toLowerCase (None # locs) lowerMsg locationsInMsg = Inl TypeError"
| "pushLocations_rt toLowerCase (Some loc # locs) lowerMsg locationsInMsg =
     pushLocations_rt toLowerCase locs lowerMsg
       (if str_includes lowerMsg (toLowerCase loc) then locationsInMsg @ [loc]
        else locationsInMsg)"

definition detectLocations_rt ::
  "(string \<Rightarrow> string) \<Rightarrow> 'doc Hospital_rt list \<Rightarrow> string \<Rightarrow> js_error + string list" where
  "detectLocations_rt toLowerCase MOCK_HOSPITALS lowerMsg =
     (case pushLocations_rt toLowerCase (allLocations_rt MOCK_HOSPITALS) lowerMsg [] of
        Inl e \<Rightarrow> Inl e
      | Inr l0 \<Rightarrow> Inr (pushAliases lowerMsg l0))"

text \<open>
  Step 4. \<open>d.name.toLowerCase().includes(detectedDept.toLowerCase())\<close> is the callback of
  \<open>some\<close> in the first filter and of \<open>find\<close> in the \<open>forEach\<close>.
\<close>

definition deptMatches_rt ::
  "(string \<Rightarrow> string) \<Rightarrow> string \<Rightarrow> 'doc Department_rt \<Rightarrow> js_error + bool" where
  "deptMatches_rt toLowerCase detectedDept d =
     (case call_toLowerCase toLowerCase (rt_name d) of
        Inl e \<Rightarrow> Inl e
      | Inr n \<Rightarrow> Inr (str_includes n (toLowerCase detectedDept)))"

definition hasDept_rt ::
  "(string \<Rightarrow> string) \<Rightarrow> string \<Rightarrow> 'doc Hospital_rt \<Rightarrow> js_error + bool" where
  "hasDept_rt toLowerCase detectedDept h =
     (case rt_departments h of
        None \<Rightarrow> Inl TypeError
      | Some ds \<Rightarrow> some_rt (deptMatches_rt toLowerCase detectedDept) ds)"

text \<open>
  The callback of \<open>some\<close> in the second filter; \<open>||\<close> evaluates its right side only when
  the left side is false.
\<close>

definition nearOne_rt ::
  "(string \<Rightarrow> string) \<Rightarrow> 'doc Hospital_rt \<Rightarrow> string \<Rightarrow> js_error + bool" where
  "nearOne_rt toLowerCase h loc =
     (case call_toLowerCase toLowerCase (rt_state h) of
        Inl e \<Rightarrow> Inl e
      | Inr s \<Rightarrow>
          if str_includes s (toLowerCase loc) then Inr True
          else (case call_toLowerCase toLowerCase (rt_location h) of
                  Inl e \<Rightarrow> Inl e
                | Inr l \<Rightarrow> Inr (str_includes l (toLowerCase loc))))"

definition nearLocation_rt ::
  "(string \<Rightarrow> string) \<Rightarrow> string list \<Rightarrow> 'doc Hospital_rt \<Rightarrow> js_error + bool" where
  "nearLocation_rt toLowerCase locationsInMsg h =
     some_rt (nearOne_rt toLowerCase h) locationsInMsg"

definition relevantHospitals_rt ::
  "(string \<Rightarrow> string) \<Rightarrow> 'doc Hospital_rt list \<Rightarrow> string \<Rightarrow> string list
     \<Rightarrow> js_error + 'doc Hospital_rt list" where
  "relevantHospitals_rt toLowerCase MOCK_HOSPITALS detectedDept locationsInMsg =
     (case filter_rt (hasDept_rt toLowerCase detectedDept) MOCK_HOSPITALS of
        Inl e \<Rightarrow> Inl e
      | Inr relevant \<Rightarrow>
          if length locationsInMsg > 0
          then filter_rt (nearLocation_rt toLowerCase locationsInMsg) relevant
          else Inr relevant)"

text \<open>
  The callback of the \<open>forEach\<close> over the relevant hospitals: \<open>dept\<close> is the first
  matching department; when there is one, \<open>dept.doctors.length\<close> is read and, when it is
  positive, the doctors are run over with a callback that does nothing.
\<close>

definition gatherDoctors_rt ::
  "(string \<Rightarrow> string) \<Rightarrow> string \<Rightarrow> 'doc Hospital_rt \<Rightarrow> js_error + unit" where
  "gatherDoctors_rt toLowerCase detectedDept h =
     (case rt_departments h of
        None \<Rightarrow> Inl TypeError
      | Some ds \<Rightarrow>
          (case find_rt (deptMatches_rt toLowerCase detectedDept) ds of
             Inl e \<Rightarrow> Inl e
           | Inr None \<Rightarrow> Inr ()
           | Inr (Some dept) \<Rightarrow>
               (case rt_doctors dept of
                  None \<Rightarrow> Inl TypeError
                | Some docs \<Rightarrow>
                    if length docs > 0 then forEach_rt (\<lambda>doc. Inr ()) docs else Inr ())))"

text \<open>
  The body of \<open>ChatService.sendMessage\<close>: \<open>Inr\<close> the returned response, \<open>Inl\<close> the
  thrown error. The message is a string, as the chat page passes one.
\<close>

definition ChatService_sendMessage_rt ::
  "(string \<Rightarrow> string) \<Rightarrow> 'doc Hospital_rt list \<Rightarrow> string \<Rightarrow> string
     \<Rightarrow> js_error + 'doc ChatResponse_rt" where
  "ChatService_sendMessage_rt toLowerCase MOCK_HOSPITALS message language =
     (let lowerMsg = toLowerCase message in
      if str_includes lowerMsg ''emergency'' \<or> str_includes lowerMsg ''accident''
         \<or> str_includes lowerMsg ''ambulance'' \<or> str_includes lowerMsg ''bleeding''
      then Inr \<lparr>rt_reply_text = EMERGENCY_TEXT, rt_suggestedHospitals = None,
                rt_suggestedDoctors = None, rt_action = Some AMBULANCE_DISPATCH\<rparr>
      else
        let detectedDept = detectDept lowerMsg in
        case detectLocations_rt toLowerCase MOCK_HOSPITALS lowerMsg of
          Inl e \<Rightarrow> Inl e
        | Inr locationsInMsg \<Rightarrow>
            if truthy detectedDept then
              (case relevantHospitals_rt toLowerCase MOCK_HOSPITALS (the detectedDept)
                      locationsInMsg of
                 Inl e \<Rightarrow> Inl e
               | Inr relevant \<Rightarrow>
                   (case forEach_rt (gatherDoctors_rt toLowerCase (the detectedDept))
                           relevant of
                      Inl e \<Rightarrow> Inl e
                    | Inr u \<Rightarrow>
                        let topHospitals = take 3 relevant
                        in if length topHospitals > 0
                           then Inr \<lparr>rt_reply_text =
                                       FOUND_TEXT (the detectedDept) locationsInMsg,
                                     rt_suggestedHospitals = Some topHospitals,
                                     rt_suggestedDoctors = None, rt_action = None\<rparr>
                           else Inr \<lparr>rt_reply_text = NOT_FOUND_TEXT (the detectedDept),
                                     rt_suggestedHospitals = None,
                                     rt_suggestedDoctors = None, rt_action = None\<rparr>))
            else Inr \<lparr>rt_reply_text = FALLBACK_TEXT, rt_suggestedHospitals = None,
                      rt_suggestedDoctors = None, rt_action = None\<rparr>)"

text \<open>
  A hospital of the running program has the type \<open>Hospital\<close> when the properties read by
  the body are there; a typed hospital is such a hospital.
\<close>

definition wellTyped_department :: "'doc Department_rt \<Rightarrow> bool" where
  "wellTyped_department d = (rt_name d \<noteq> None \<and> rt_doctors d \<noteq> None)"

definition wellTyped_hospital :: "'doc Hospital_rt \<Rightarrow> bool" where
  "wellTyped_hospital h =
     (rt_location h \<noteq> None \<and> rt_state h \<noteq> None
      \<and> (case rt_departments h of
            None \<Rightarrow> False
          | Some ds \<Rightarrow> list_all wellTyped_department ds))"

definition erase_department :: "'doc Department \<Rightarrow> 'doc Department_rt" where
  "erase_department d = \<lparr>rt_name = Some (name d), rt_doctors = Some (doctors d)\<rparr>"

definition erase_hospital :: "'doc Hospital \<Rightarrow> 'doc Hospital_rt" where
  "erase_hospital h =
     \<lparr>rt_hospital_name = hospital_name h,
      rt_location = Some (location h),
      rt_state = Some (state h),
      rt_hospital_type = hospital_type h,
      rt_opdTimings = opdTimings h,
      rt_departments = Some (map erase_department (departments h))\<rparr>"

definition erase_response :: "'doc ChatResponse \<Rightarrow> 'doc ChatResponse_rt" where
  "erase_response r =
     \<lparr>rt_reply_text = reply_text r,
      rt_suggestedHospitals = map_option (map erase_hospital) (suggestedHospitals r),
      rt_suggestedDoctors = suggestedDoctors r,
      rt_action = action r\<rparr>"

section \<open>The session state of the chat page\<close>

datatype Role = user | assistant

record 'doc Message =
  role :: Role
  content :: string
  suggestions :: "'doc Hospital list option"

record 'doc ChatState =
  messages :: "'doc Message list"
  isLoading :: bool
  error :: "string option"

definition initialState :: "'doc ChatState" where
  "initialState = \<lparr>messages = [], isLoading = False, error = None\<rparr>"

text \<open>
  \<open>useMedicalChat.sendMessage\<close> runs in two parts. Up to the \<open>await\<close> it appends the user
  message, sets the loading flag and clears the error. When the call of the chat service
  has settled, it appends the assistant message (\<open>try\<close>) or stores the message of the error
  (\<open>catch\<close>), and clears the loading flag (\<open>finally\<close>). Each state setter that takes a
  function is applied to the state at that moment.
\<close>

definition sendMessage_begin :: "'doc ChatState \<Rightarrow> string \<Rightarrow> 'doc ChatState" where
  "sendMessage_begin st userMessage =
     st\<lparr>messages := messages st @ [\<lparr>role = user, content = userMessage, suggestions = None\<rparr>],
        isLoading := True,
        error := None\<rparr>"

fun errorMessage :: "thrown \<Rightarrow> string" where
  "errorMessage (ErrorObject m) = m"
| "errorMessage OtherValue = ''Something went wrong. Please try again.''"

fun sendMessage_settle :: "'doc ChatState \<Rightarrow> 'doc ChatResponse settled \<Rightarrow> 'doc ChatState" where
  "sendMessage_settle st (Resolved response) =
     st\<lparr>messages := messages st @ [\<lparr>role = assistant, content = reply_text response,
                                     suggestions = suggestedHospitals response\<rparr>],
        isLoading := False\<rparr>"
| "sendMessage_settle st (Rejected e) =
     st\<lparr>error := Some (errorMessage e), isLoading := False\<rparr>"

definition useMedicalChat_sendMessage ::
  "(string \<Rightarrow> string) \<Rightarrow> 'doc Hospital list \<Rightarrow> 'doc ChatState \<Rightarrow> string \<Rightarrow> string
     \<Rightarrow> 'doc ChatState" where
  "useMedicalChat_sendMessage toLowerCase MOCK_HOSPITALS st userMessage language =
     sendMessage_settle (sendMessage_begin st userMessage)
       (ChatService_sendMessage toLowerCase MOCK_HOSPITALS userMessage language)"

definition clearChat :: "'doc ChatState \<Rightarrow> 'doc ChatState" where
  "clearChat st = st\<lparr>messages := []\<rparr>"

definition clearError :: "'doc ChatState \<Rightarrow> 'doc ChatState" where
  "clearError st = st\<lparr>error := None\<rparr>"

section \<open>The chat page as a transition system\<close>

text \<open>
  The state of \<open>DoctorBotPage\<close>: the state of the hook, the selected language, and the
  calls of the chat service that have not settled yet, oldest first, each with the way it
  is going to settle (the chat service reads nothing that changes in between). The page
  starts with no messages, no error, not loading, and the language \<open>en\<close>.
\<close>

record 'doc Page =
  chat :: "'doc ChatState"
  selected :: string
  inflight :: "'doc ChatResponse settled list"

definition initialPage :: "'doc Page" where
  "initialPage = \<lparr>chat = initialState, selected = ''en'', inflight = []\<rparr>"

text \<open>
  What can happen to the page. \<open>Send mt\<close>: the user sends an input whose trimmed text is
  \<open>mt\<close>; \<open>handleSend\<close> does nothing when the text is empty or when the input is disabled,
  which it is while loading. \<open>Settle\<close>: the oldest pending call settles and the rest of
  \<open>useMedicalChat.sendMessage\<close> runs. \<open>ResetChat\<close>: the user presses Reset Chat, which
  is shown when there are messages, also while a call is pending. \<open>SelectLanguage\<close>: the
  user picks a language.
\<close>

datatype event = Send string | Settle | ResetChat | SelectLanguage string

fun step ::
  "(string \<Rightarrow> string) \<Rightarrow> 'doc Hospital list \<Rightarrow> 'doc Page \<Rightarrow> event \<Rightarrow> 'doc Page" where
  "step toLowerCase MOCK_HOSPITALS p (Send mt) =
     (if mt \<noteq> [] \<and> \<not> isLoading (chat p)
      then p\<lparr>chat := sendMessage_begin (chat p) mt,
             inflight := inflight p
               @ [ChatService_sendMessage toLowerCase MOCK_HOSPITALS mt (selected p)]\<rparr>
      else p)"
| "step toLowerCase MOCK_HOSPITALS p Settle =
     (case inflight p of
        [] \<Rightarrow> p
      | call # calls \<Rightarrow> p\<lparr>chat := sendMessage_settle (chat p) call, inflight := calls\<rparr>)"
| "step toLowerCase MOCK_HOSPITALS p ResetChat =
     (if messages (chat p) \<noteq> [] then p\<lparr>chat := clearChat (chat p)\<rparr> else p)"
| "step toLowerCase MOCK_HOSPITALS p (SelectLanguage code) = p\<lparr>selected := code\<rparr>"

text \<open>The page after a sequence of events, from the start.\<close>

definition run ::
  "(string \<Rightarrow> string) \<Rightarrow> 'doc Hospital list \<Rightarrow> event list \<Rightarrow> 'doc Page" where
  "run toLowerCase MOCK_HOSPITALS events = foldl (step toLowerCase MOCK_HOSPITALS) initialPage events"

text \<open>What holds of every page that can be reached.\<close>

definition page_inv :: "'doc Page \<Rightarrow> bool" where
  "page_inv p =
     (error (chat p) = None
      \<and> length (inflight p) \<le> 1
      \<and> (isLoading (chat p) \<longleftrightarrow> inflight p \<noteq> [])
      \<and> list_all (\<lambda>call. case call of Resolved r \<Rightarrow> True | Rejected e \<Rightarrow> False) (inflight p))"

definition quiet :: "event list \<Rightarrow> bool" where
  "quiet events = list_all (\<lambda>ev. case ev of Send mt \<Rightarrow> False | _ \<Rightarrow> True) events"

section \<open>The filter in the words of the specification\<close>

text \<open>
  The specification describes the surviving hospitals by one condition: the hospital has a
  department whose name contains the detected department, and, when a location was
  detected, its state or its location contains one of the detected locations; both tests
  ignore case.
\<close>

definition ci_contains :: "(string \<Rightarrow> string) \<Rightarrow> string \<Rightarrow> string \<Rightarrow> bool" where
  "ci_contains toLowerCase s p = str_includes (toLowerCase s) (toLowerCase p)"

definition spec_survivors ::
  "(string \<Rightarrow> string) \<Rightarrow> 'doc Hospital list \<Rightarrow> string \<Rightarrow> string list
     \<Rightarrow> 'doc Hospital list" where
  "spec_survivors toLowerCase directory dept locs =
     filter (\<lambda>h. (\<exists>d \<in> set (departments h). ci_contains toLowerCase (name d) dept)
                \<and> (locs = []
                   \<or> (\<exists>loc \<in> set locs. ci_contains toLowerCase (state h) loc
                                       \<or> ci_contains toLowerCase (location h) loc)))
       directory"

section \<open>A sample directory\<close>

text \<open>
  Five hospitals on which the responder is evaluated below. Four of them have a cardiology
  department, two are outside Delhi, none in Maharashtra has a dermatology department.
\<close>

definition exampleHospitals :: "string Hospital list" where
  "exampleHospitals =
    [\<lparr>hospital_name = ''AIIMS'', location = ''Ansari Nagar, New Delhi'', state = ''Delhi'',
      hospital_type = Government, opdTimings = ''08:00 - 14:00'',
      departments = [\<lparr>name = ''Cardiology'', doctors = [''Dr. Rao'']\<rparr>,
                     \<lparr>name = ''Dermatology'', doctors = []\<rparr>]\<rparr>,
     \<lparr>hospital_name = ''Lilavati Hospital'', location = ''Bandra, Mumbai'',
      state = ''Maharashtra'', hospital_type = Private, opdTimings = ''09:00 - 17:00'',
      departments = [\<lparr>name = ''Cardiology'', doctors = []\<rparr>]\<rparr>,
     \<lparr>hospital_name = ''Safdarjung Hospital'', location = ''New Delhi'', state = ''Delhi'',
      hospital_type = Government, opdTimings = ''08:00 - 13:00'',
      departments = [\<lparr>name = ''Cardiology'', doctors = []\<rparr>,
                     \<lparr>name = ''Orthopedics'', doctors = []\<rparr>]\<rparr>,
     \<lparr>hospital_name = ''Manipal Hospital'', location = ''Bengaluru'', state = ''Karnataka'',
      hospital_type = Private, opdTimings = ''09:00 - 18:00'',
      departments = [\<lparr>name = ''Interventional Cardiology'', doctors = []\<rparr>]\<rparr>,
     \<lparr>hospital_name = ''Max Hospital'', location = ''Saket'', state = ''Delhi'',
      hospital_type = Private, opdTimings = ''10:00 - 16:00'',
      departments = [\<lparr>name = ''Cardiology'', doctors = []\<rparr>]\<rparr>]"

text \<open>
  A directory in which the second hospital has a cardiology department without the
  \<open>doctors\<close> property.
\<close>

definition brokenHospitals :: "string Hospital_rt list" where
  "brokenHospitals =
    [\<lparr>rt_hospital_name = ''AIIMS'', rt_location = Some ''Ansari Nagar, New Delhi'',
      rt_state = Some ''Delhi'', rt_hospital_type = Government,
      rt_opdTimings = ''08:00 - 14:00'',
      rt_departments = Some [\<lparr>rt_name = Some ''Cardiology'', rt_doctors = Some [''Dr. Rao'']\<rparr>]\<rparr>,
     \<lparr>rt_hospital_name = ''Lilavati Hospital'', rt_location = Some ''Bandra, Mumbai'',
      rt_state = Some ''Maharashtra'', rt_hospital_type = Private,
      rt_opdTimings = ''09:00 - 17:00'',
      rt_departments = Some [\<lparr>rt_name = Some ''Cardiology'', rt_doctors = None\<rparr>]\<rparr>]"

section \<open>Substring test\<close>

lemma startsWith_iff: "startsWith s p \<longleftrightarrow> (\<exists>suf. s = p @ suf)"
  by (induction s p rule: startsWith.induct) auto

lemma str_includes_iff: "str_includes s p \<longleftrightarrow> (\<exists>pre suf. s = pre @ p @ suf)"
proof (induction s)
  case Nil
  then show ?case by (simp add: startsWith_iff)
next
  case (Cons c cs)
  show ?case
  proof
    assume "str_includes (c # cs) p"
    then consider "startsWith (c # cs) p" | "str_includes cs p" by auto
    then show "\<exists>pre suf. c # cs = pre @ p @ suf"
    proof cases
      case 1
      then obtain suf where "c # cs = p @ suf" using startsWith_iff by blast
      then have "c # cs = [] @ p @ suf" by simp
      then show ?thesis by blast
    next
      case 2
      then obtain pre suf where "cs = pre @ p @ suf" using Cons.IH by blast
      then have "c # cs = (c # pre) @ p @ suf" by simp
      then show ?thesis by blast
    qed
  next
    assume "\<exists>pre suf. c # cs = pre @ p @ suf"
    then obtain pre suf where eq: "c # cs = pre @ p @ suf" by blast
    show "str_includes (c # cs) p"
    proof (cases pre)
      case Nil
      with eq have "startsWith (c # cs) p" using startsWith_iff by force
      then show ?thesis by simp
    next
      case (Cons a pre')
      with eq have "cs = pre' @ p @ suf" by simp
      then have "str_includes cs p" using Cons.IH by blast
      then show ?thesis by simp
    qed
  qed
qed

section \<open>Facts about the loops and the filters\<close>

lemma detectDept_loop_find:
  "detectDept_loop entries m = map_option snd (find (\<lambda>e. str_includes m (fst e)) entries)"
  by (induction entries m rule: detectDept_loop.induct) auto

lemma detectDept_loop_None:
  "detectDept_loop entries m = None \<longleftrightarrow> (\<forall>(k, d) \<in> set entries. \<not> str_includes m k)"
  by (induction entries m rule: detectDept_loop.induct) auto

lemma detectDept_loop_Some:
  "detectDept_loop entries m = Some dept \<longleftrightarrow>
     (\<exists>i < length entries. snd (entries ! i) = dept \<and> str_includes m (fst (entries ! i))
        \<and> (\<forall>j < i. \<not> str_includes m (fst (entries ! j))))"
  (is "?L \<longleftrightarrow> ?R")
proof -
  define P where "P = (\<lambda>e :: string \<times> string. str_includes m (fst e))"
  have loop: "detectDept_loop entries m = map_option snd (find P entries)"
    by (simp add: detectDept_loop_find P_def)
  have "?L \<longleftrightarrow> (\<exists>e. find P entries = Some e \<and> snd e = dept)"
    by (auto simp: loop)
  also have "\<dots> \<longleftrightarrow> (\<exists>i < length entries. P (entries ! i) \<and> snd (entries ! i) = dept
                         \<and> (\<forall>j < i. \<not> P (entries ! j)))"
    unfolding find_Some_iff by blast
  also have "\<dots> \<longleftrightarrow> ?R"
    by (auto simp: P_def)
  finally show ?thesis .
qed

lemma detectDept_loop_mem:
  "detectDept_loop entries m = Some dept \<Longrightarrow> \<exists>k. (k, dept) \<in> set entries \<and> str_includes m k"
  by (induction entries) (auto split: if_splits)

lemma SYMPTOM_MAP_dept_nonempty: "(k, dept) \<in> set SYMPTOM_MAP \<Longrightarrow> dept \<noteq> []"
  by (auto simp: SYMPTOM_MAP_def)

lemma detectDept_truthy: "detectDept m = Some dept \<Longrightarrow> truthy (detectDept m)"
  using detectDept_loop_mem [of SYMPTOM_MAP m dept] SYMPTOM_MAP_dept_nonempty
  by (auto simp: detectDept_def)

lemma pushLocations_filter:
  "pushLocations lc locs m acc = acc @ filter (\<lambda>loc. str_includes m (lc loc)) locs"
  by (induction locs arbitrary: acc) auto

lemma pushAliases_append:
  "pushAliases m l0 =
     l0 @ (if str_includes m ''delhi'' then [''Delhi''] else [])
        @ (if str_includes m ''mumbai'' then [''Maharashtra''] else [])
        @ (if str_includes m ''bangalore'' \<or> str_includes m ''bengaluru''
           then [''Karnataka''] else [])"
  by (simp add: pushAliases_def Let_def)

lemma set_foldl_set_add: "set (foldl set_add acc xs) = set acc \<union> set xs"
  by (induction xs arbitrary: acc) (auto simp: set_add_def)

lemma distinct_foldl_set_add: "distinct acc \<Longrightarrow> distinct (foldl set_add acc xs)"
  by (induction xs arbitrary: acc) (auto simp: set_add_def)

lemma set_allLocations: "set (allLocations hs) = state ` set hs \<union> location ` set hs"
  by (simp add: allLocations_def new_Set_def set_foldl_set_add)

lemma distinct_allLocations: "distinct (allLocations hs)"
  by (simp add: allLocations_def new_Set_def distinct_foldl_set_add)

lemma count_list_filter_distinct:
  "distinct xs \<Longrightarrow> count_list (filter P xs) x = (if x \<in> set xs \<and> P x then 1 else 0)"
  by (induction xs) auto

lemma relevantHospitals_spec:
  "relevantHospitals lc hs dept locs = spec_survivors lc hs dept locs"
  by (cases locs)
     (auto simp: relevantHospitals_def spec_survivors_def hasDept_def nearLocation_def
        ci_contains_def list_ex_iff Let_def intro!: filter_cong)

lemma take3_empty: "take 3 xs = [] \<longleftrightarrow> xs = []"
  by (cases xs) auto

lemma not_emergency_response:
  assumes "\<not> (\<exists>k \<in> set [''emergency'', ''accident'', ''ambulance'', ''bleeding''].
        str_includes (lc message) k)"
  shows "ChatService_sendMessage lc hs message language =
     (let lowerMsg = lc message;
          detectedDept = detectDept lowerMsg;
          locationsInMsg = detectLocations lc hs lowerMsg
      in if truthy detectedDept then
           let topHospitals = take 3 (relevantHospitals lc hs (the detectedDept) locationsInMsg)
           in if topHospitals \<noteq> []
              then Resolved \<lparr>reply_text = FOUND_TEXT (the detectedDept) locationsInMsg,
                             suggestedHospitals = Some topHospitals,
                             suggestedDoctors = None, action = None\<rparr>
              else Resolved \<lparr>reply_text = NOT_FOUND_TEXT (the detectedDept),
                             suggestedHospitals = None,
                             suggestedDoctors = None, action = None\<rparr>
         else Resolved \<lparr>reply_text = FALLBACK_TEXT, suggestedHospitals = None,
                        suggestedDoctors = None, action = None\<rparr>)"
  using assms by (simp add: ChatService_sendMessage_def Let_def)

lemma ChatService_sendMessage_resolves:
  "\<exists>response. ChatService_sendMessage lc hs message language = Resolved response"
  by (simp add: ChatService_sendMessage_def Let_def)

section \<open>The typed directory and the directory of the running program\<close>

text \<open>
  On a typed directory no operation of the body throws, and the body returns the response
  of the typed model.
\<close>

lemma some_rt_map:
  assumes "\<And>x. x \<in> set xs \<Longrightarrow> f (e x) = Inr (g x)"
  shows "some_rt f (map e xs) = Inr (list_ex g xs)"
  using assms by (induction xs) auto

lemma find_rt_map:
  assumes "\<And>x. x \<in> set xs \<Longrightarrow> f (e x) = Inr (g x)"
  shows "find_rt f (map e xs) = Inr (map_option e (find g xs))"
  using assms by (induction xs) auto

lemma filter_rt_map:
  assumes "\<And>x. x \<in> set xs \<Longrightarrow> f (e x) = Inr (g x)"
  shows "filter_rt f (map e xs) = Inr (map e (filter g xs))"
  using assms by (induction xs) auto

lemma forEach_rt_ok:
  assumes "\<And>x. x \<in> set xs \<Longrightarrow> f x = Inr ()"
  shows "forEach_rt f xs = Inr ()"
  using assms by (induction xs) auto

lemma deptMatches_rt_erase:
  "deptMatches_rt lc dept (erase_department d) = Inr (str_includes (lc (name d)) (lc dept))"
  by (simp add: deptMatches_rt_def erase_department_def)

lemma hasDept_rt_erase: "hasDept_rt lc dept (erase_hospital h) = Inr (hasDept lc dept h)"
  by (simp add: hasDept_rt_def hasDept_def erase_hospital_def some_rt_map deptMatches_rt_erase)

lemma nearOne_rt_erase:
  "nearOne_rt lc (erase_hospital h) loc =
     Inr (str_includes (lc (state h)) (lc loc) \<or> str_includes (lc (location h)) (lc loc))"
  by (simp add: nearOne_rt_def erase_hospital_def)

lemma nearLocation_rt_erase:
  "nearLocation_rt lc locs (erase_hospital h) = Inr (nearLocation lc locs h)"
  using some_rt_map [of locs "nearOne_rt lc (erase_hospital h)" "\<lambda>loc. loc"]
  by (simp add: nearLocation_rt_def nearLocation_def nearOne_rt_erase)

lemma relevantHospitals_rt_erase:
  "relevantHospitals_rt lc (map erase_hospital hs) dept locs =
     Inr (map erase_hospital (relevantHospitals lc hs dept locs))"
  by (simp add: relevantHospitals_rt_def relevantHospitals_def Let_def
        filter_rt_map hasDept_rt_erase nearLocation_rt_erase)

lemma gatherDoctors_rt_erase: "gatherDoctors_rt lc dept (erase_hospital h) = Inr ()"
proof -
  have found: "find_rt (deptMatches_rt lc dept) (map erase_department (departments h)) =
      Inr (map_option erase_department
             (find (\<lambda>d. str_includes (lc (name d)) (lc dept)) (departments h)))"
    by (rule find_rt_map) (rule deptMatches_rt_erase)
  have walk: "forEach_rt (\<lambda>doc. Inr ()) docs = Inr ()" for docs :: "'a list"
    by (rule forEach_rt_ok) simp
  show ?thesis
    by (cases "find (\<lambda>d. str_includes (lc (name d)) (lc dept)) (departments h)")
       (simp_all add: gatherDoctors_rt_def erase_hospital_def found erase_department_def walk)
qed

lemma foldl_set_add_Some:
  "foldl set_add (map Some acc) (map Some xs) = map Some (foldl set_add acc xs)"
proof (induction xs arbitrary: acc)
  case Nil
  then show ?case by simp
next
  case (Cons x xs)
  have "set_add (map Some acc) (Some x) = map Some (set_add acc x)"
    by (auto simp: set_add_def)
  with Cons.IH [of "set_add acc x"] show ?case by simp
qed

lemma allLocations_rt_erase:
  "allLocations_rt (map erase_hospital hs) = map Some (allLocations hs)"
proof -
  have s: "map rt_state (map erase_hospital hs) = map Some (map state hs)"
    by (simp add: erase_hospital_def)
  have l: "map rt_location (map erase_hospital hs) = map Some (map location hs)"
    by (simp add: erase_hospital_def)
  have "allLocations_rt (map erase_hospital hs) =
      foldl set_add (map Some []) (map Some (map state hs @ map location hs))"
    unfolding allLocations_rt_def new_Set_def s l by simp
  also have "\<dots> = map Some (foldl set_add [] (map state hs @ map location hs))"
    by (rule foldl_set_add_Some)
  finally show ?thesis
    by (simp add: allLocations_def new_Set_def)
qed

lemma pushLocations_rt_Some:
  "pushLocations_rt lc (map Some locs) m acc = Inr (pushLocations lc locs m acc)"
  by (induction locs arbitrary: acc) auto

lemma detectLocations_rt_erase:
  "detectLocations_rt lc (map erase_hospital hs) m = Inr (detectLocations lc hs m)"
  by (simp add: detectLocations_rt_def detectLocations_def allLocations_rt_erase
        pushLocations_rt_Some)

lemma ChatService_sendMessage_rt_erase:
  assumes "ChatService_sendMessage lc hs message language = Resolved response"
  shows "ChatService_sendMessage_rt lc (map erase_hospital hs) message language =
           Inr (erase_response response)"
proof -
  have walk: "forEach_rt (gatherDoctors_rt lc dept) (map erase_hospital xs) = Inr ()"
    for dept and xs :: "'a Hospital list"
    by (rule forEach_rt_ok) (auto simp: gatherDoctors_rt_erase)
  show ?thesis
    using assms
    by (auto simp: ChatService_sendMessage_rt_def ChatService_sendMessage_def Let_def
          detectLocations_rt_erase relevantHospitals_rt_erase walk erase_response_def
          take_map split: if_splits)
qed

lemma wellTyped_department_erase:
  "list_all wellTyped_department ds \<Longrightarrow> \<exists>ts. ds = map erase_department ts"
proof (induction ds)
  case Nil
  then show ?case by simp
next
  case (Cons d ds)
  then obtain ts where ts: "ds = map erase_department ts" by auto
  from Cons.prems obtain n docs where "rt_name d = Some n" "rt_doctors d = Some docs"
    by (auto simp: wellTyped_department_def)
  then have "d = erase_department \<lparr>name = n, doctors = docs\<rparr>"
    by (simp add: erase_department_def)
  with ts have "d # ds = map erase_department (\<lparr>name = n, doctors = docs\<rparr> # ts)" by simp
  then show ?case by (rule exI)
qed

lemma wellTyped_hospital_erase:
  assumes "wellTyped_hospital h"
  shows "\<exists>t. h = erase_hospital t"
proof -
  from assms obtain l s ds where fields:
    "rt_location h = Some l" "rt_state h = Some s" "rt_departments h = Some ds"
    "list_all wellTyped_department ds"
    by (auto simp: wellTyped_hospital_def split: option.splits)
  then obtain ts where "ds = map erase_department ts"
    using wellTyped_department_erase by blast
  with fields have "h = erase_hospital
      \<lparr>hospital_name = rt_hospital_name h, location = l, state = s,
       hospital_type = rt_hospital_type h, opdTimings = rt_opdTimings h, departments = ts\<rparr>"
    by (simp add: erase_hospital_def)
  then show ?thesis by blast
qed

lemma wellTyped_directory_erase:
  "list_all wellTyped_hospital hs \<Longrightarrow> \<exists>ts. hs = map erase_hospital ts"
proof (induction hs)
  case Nil
  then show ?case by simp
next
  case (Cons h hs)
  then obtain ts where "hs = map erase_hospital ts" by auto
  moreover from Cons.prems obtain t where "h = erase_hospital t"
    using wellTyped_hospital_erase by auto
  ultimately have "h # hs = map erase_hospital (t # ts)" by simp
  then show ?case by (rule exI)
qed

section \<open>Facts about the pages that can be reached\<close>

lemma page_inv_initial: "page_inv initialPage"
  by (simp add: page_inv_def initialPage_def initialState_def)

lemma page_inv_step:
  assumes "page_inv p"
  shows "page_inv (step lc hs p ev)"
proof (cases ev)
  case (Send mt)
  obtain r where r: "ChatService_sendMessage lc hs mt (selected p) = Resolved r"
    using ChatService_sendMessage_resolves by blast
  from assms show ?thesis
    by (auto simp: Send page_inv_def sendMessage_begin_def r)
next
  case Settle
  from assms show ?thesis
    by (cases "inflight p")
       (auto simp: Settle page_inv_def split: settled.splits)
next
  case ResetChat
  from assms show ?thesis
    by (simp add: ResetChat page_inv_def clearChat_def)
next
  case (SelectLanguage code)
  from assms show ?thesis
    by (simp add: SelectLanguage page_inv_def)
qed

lemma page_inv_foldl: "page_inv p \<Longrightarrow> page_inv (foldl (step lc hs) p evs)"
  by (induction evs arbitrary: p) (simp_all add: page_inv_step)

lemma page_inv_run: "page_inv (run lc hs evs)"
  by (simp add: run_def page_inv_foldl page_inv_initial)

lemma run_append: "run lc hs (evs @ evs') = foldl (step lc hs) (run lc hs evs) evs'"
  by (simp add: run_def)

lemma run_snoc: "run lc hs (evs @ [ev]) = step lc hs (run lc hs evs) ev"
  by (simp add: run_def)

lemma send_then_settle:
  assumes "mt \<noteq> []" "\<not> isLoading (chat p)" "inflight p = []"
  shows "chat (step lc hs (step lc hs p (Send mt)) Settle) =
           useMedicalChat_sendMessage lc hs (chat p) mt (selected p)"
  using assms by (simp add: useMedicalChat_sendMessage_def)

lemma reset_empties: "messages (chat (step lc hs p ResetChat)) = []"
  by (simp add: clearChat_def)

lemma quiet_keeps_empty:
  assumes "quiet evs" "messages (chat p) = []" "inflight p = []" "\<not> isLoading (chat p)"
  shows "messages (chat (foldl (step lc hs) p evs)) = []
         \<and> inflight (foldl (step lc hs) p evs) = []
         \<and> \<not> isLoading (chat (foldl (step lc hs) p evs))"
  using assms
proof (induction evs arbitrary: p)
  case Nil
  then show ?case by simp
next
  case (Cons ev evs)
  from Cons.prems have q: "quiet evs" and ev: "\<forall>mt. ev \<noteq> Send mt"
    by (auto simp: quiet_def)
  from ev Cons.prems have
    "messages (chat (step lc hs p ev)) = [] \<and> inflight (step lc hs p ev) = []
     \<and> \<not> isLoading (chat (step lc hs p ev))"
    by (cases ev) simp_all
  with Cons.IH [OF q] show ?case by simp
qed

section \<open>The emergency branch\<close>

text \<open>
  C1. A message whose lower-cased text contains "emergency", "accident", "ambulance" or
  "bleeding" is answered with the fixed emergency text, the action AMBULANCE_DISPATCH and
  no suggested hospitals (and no suggested doctors), whatever else the message contains
  and whatever the hospital directory holds.
\<close>

theorem emergency_short_circuit:
  assumes "\<exists>k \<in> set [''emergency'', ''accident'', ''ambulance'', ''bleeding''].
             str_includes (toLowerCase message) k"
  shows "ChatService_sendMessage toLowerCase MOCK_HOSPITALS message language =
           Resolved \<lparr>reply_text = EMERGENCY_TEXT, suggestedHospitals = None,
                     suggestedDoctors = None, action = Some AMBULANCE_DISPATCH\<rparr>"
  using assms by (auto simp: ChatService_sendMessage_def Let_def)

theorem emergency_short_circuit_witness:
  "(\<exists>k \<in> set [''emergency'', ''accident'', ''ambulance'', ''bleeding''].
      str_includes (toLowerCase_ascii ''Chest pain after an ACCIDENT in Delhi'') k)
   \<and> ChatService_sendMessage toLowerCase_ascii exampleHospitals
        ''Chest pain after an ACCIDENT in Delhi'' ''en'' =
       Resolved \<lparr>reply_text = EMERGENCY_TEXT, suggestedHospitals = None,
                 suggestedDoctors = None, action = Some AMBULANCE_DISPATCH\<rparr>"
proof -
  have h: "\<exists>k \<in> set [''emergency'', ''accident'', ''ambulance'', ''bleeding''].
      str_includes (toLowerCase_ascii ''Chest pain after an ACCIDENT in Delhi'') k"
    by (simp add: toLowerCase_ascii_def toLowerChar_ascii_def)
  from h emergency_short_circuit
      [where toLowerCase = toLowerCase_ascii
         and message = "''Chest pain after an ACCIDENT in Delhi''"
         and MOCK_HOSPITALS = exampleHospitals and language = "''en''", OF h]
  show ?thesis
    by (intro conjI)
qed

section \<open>Department detection\<close>

text \<open>
  C2. The detected department is the department of the first entry of the keyword table, in
  declaration order, whose keyword occurs in the lower-cased message: it is the department
  of entry \<open>i\<close> exactly when keyword \<open>i\<close> occurs and no keyword before it does, and no
  department is detected exactly when no keyword occurs. Keywords of later entries have no
  effect.
\<close>

theorem first_keyword_department:
  "(detectDept lowerMsg = Some dept \<longleftrightarrow>
      (\<exists>i < length SYMPTOM_MAP.
          snd (SYMPTOM_MAP ! i) = dept \<and> str_includes lowerMsg (fst (SYMPTOM_MAP ! i))
          \<and> (\<forall>j < i. \<not> str_includes lowerMsg (fst (SYMPTOM_MAP ! j)))))
   \<and> (detectDept lowerMsg = None \<longleftrightarrow>
        (\<forall>(key, d) \<in> set SYMPTOM_MAP. \<not> str_includes lowerMsg key))"
  unfolding detectDept_def using detectDept_loop_Some detectDept_loop_None by blast

theorem first_keyword_department_witness:
  "detectDept ''cough and a weak heart'' = Some ''Cardiology''
   \<and> str_includes ''cough and a weak heart'' ''cough''
   \<and> detectDept ''cough and a weak heart'' \<noteq> Some ''Pulmonology''"
proof -
  have len: "0 < length SYMPTOM_MAP" by (simp add: SYMPTOM_MAP_def)
  have e0: "SYMPTOM_MAP ! 0 = (''heart'', ''Cardiology'')" by (simp add: SYMPTOM_MAP_def)
  have hit: "str_includes ''cough and a weak heart'' (fst (SYMPTOM_MAP ! 0))"
    unfolding e0 by simp
  have first: "\<forall>j < (0::nat). \<not> str_includes ''cough and a weak heart'' (fst (SYMPTOM_MAP ! j))"
    by simp
  have dept: "detectDept ''cough and a weak heart'' = Some ''Cardiology''"
    using first_keyword_department [of "''cough and a weak heart''" "''Cardiology''"]
      len e0 hit first by (metis snd_conv)
  have cough: "str_includes ''cough and a weak heart'' ''cough''" by simp
  from dept cough show ?thesis by simp
qed

section \<open>Location detection\<close>

text \<open>
  C4. The detected locations are the known locations (the state and location values of
  the directory, each once) whose lower-cased text occurs in the lower-cased message, in
  that order, followed by "Delhi" when the message contains "delhi", "Maharashtra" when
  it contains "mumbai" and "Karnataka" when it contains "bangalore" or "bengaluru". So
  every state or location value of a hospital that occurs in the message is in the list;
  and an alias is appended also when its value was collected already, so the list can
  hold a value twice: "Delhi" occurs once for the alias and once more when "Delhi" is a
  known location whose lower-cased text occurs in the message (for the built-in that text
  is "delhi", the keyword of the alias), and likewise "Maharashtra" and "Karnataka" occur
  once for the alias and once more when they are known locations named in the message.
\<close>

theorem detected_locations:
  "detectLocations toLowerCase MOCK_HOSPITALS lowerMsg =
     filter (\<lambda>loc. str_includes lowerMsg (toLowerCase loc)) (allLocations MOCK_HOSPITALS)
     @ (if str_includes lowerMsg ''delhi'' then [''Delhi''] else [])
     @ (if str_includes lowerMsg ''mumbai'' then [''Maharashtra''] else [])
     @ (if str_includes lowerMsg ''bangalore'' \<or> str_includes lowerMsg ''bengaluru''
        then [''Karnataka''] else [])
   \<and> set (allLocations MOCK_HOSPITALS) = state ` set MOCK_HOSPITALS \<union> location ` set MOCK_HOSPITALS
   \<and> distinct (allLocations MOCK_HOSPITALS)
   \<and> (\<forall>h \<in> set MOCK_HOSPITALS.
        (str_includes lowerMsg (toLowerCase (state h)) \<longrightarrow>
           state h \<in> set (detectLocations toLowerCase MOCK_HOSPITALS lowerMsg))
        \<and> (str_includes lowerMsg (toLowerCase (location h)) \<longrightarrow>
           location h \<in> set (detectLocations toLowerCase MOCK_HOSPITALS lowerMsg)))
   \<and> count_list (detectLocations toLowerCase MOCK_HOSPITALS lowerMsg) ''Delhi'' =
        (if ''Delhi'' \<in> set (allLocations MOCK_HOSPITALS)
            \<and> str_includes lowerMsg (toLowerCase ''Delhi'')
         then 1 else 0)
        + (if str_includes lowerMsg ''delhi'' then 1 else 0)
   \<and> count_list (detectLocations toLowerCase MOCK_HOSPITALS lowerMsg) ''Maharashtra'' =
        (if ''Maharashtra'' \<in> set (allLocations MOCK_HOSPITALS)
            \<and> str_includes lowerMsg (toLowerCase ''Maharashtra'')
         then 1 else 0)
        + (if str_includes lowerMsg ''mumbai'' then 1 else 0)
   \<and> count_list (detectLocations toLowerCase MOCK_HOSPITALS lowerMsg) ''Karnataka'' =
        (if ''Karnataka'' \<in> set (allLocations MOCK_HOSPITALS)
            \<and> str_includes lowerMsg (toLowerCase ''Karnataka'')
         then 1 else 0)
        + (if str_includes lowerMsg ''bangalore'' \<or> str_includes lowerMsg ''bengaluru''
           then 1 else 0)"
proof -
  let ?locs = "detectLocations toLowerCase MOCK_HOSPITALS lowerMsg"
  let ?collected =
    "filter (\<lambda>loc. str_includes lowerMsg (toLowerCase loc)) (allLocations MOCK_HOSPITALS)"
  have shape: "?locs = ?collected
     @ (if str_includes lowerMsg ''delhi'' then [''Delhi''] else [])
     @ (if str_includes lowerMsg ''mumbai'' then [''Maharashtra''] else [])
     @ (if str_includes lowerMsg ''bangalore'' \<or> str_includes lowerMsg ''bengaluru''
        then [''Karnataka''] else [])"
    by (simp add: detectLocations_def pushLocations_filter pushAliases_append)
  have sub: "set ?collected \<subseteq> set ?locs"
    unfolding shape by simp
  have mem: "\<forall>h \<in> set MOCK_HOSPITALS.
        (str_includes lowerMsg (toLowerCase (state h)) \<longrightarrow> state h \<in> set ?locs)
        \<and> (str_includes lowerMsg (toLowerCase (location h)) \<longrightarrow> location h \<in> set ?locs)"
  proof (intro ballI conjI impI)
    fix h assume h: "h \<in> set MOCK_HOSPITALS"
    { assume "str_includes lowerMsg (toLowerCase (state h))"
      with h have "state h \<in> set ?collected" by (simp add: set_allLocations)
      with sub show "state h \<in> set ?locs" by blast }
    { assume "str_includes lowerMsg (toLowerCase (location h))"
      with h have "location h \<in> set ?collected" by (simp add: set_allLocations)
      with sub show "location h \<in> set ?locs" by blast }
  qed
  have collected: "count_list ?collected x =
      (if x \<in> set (allLocations MOCK_HOSPITALS) \<and> str_includes lowerMsg (toLowerCase x)
       then 1 else 0)" for x
    by (simp add: count_list_filter_distinct distinct_allLocations)
  have delhi: "count_list ?locs ''Delhi'' =
        (if ''Delhi'' \<in> set (allLocations MOCK_HOSPITALS)
            \<and> str_includes lowerMsg (toLowerCase ''Delhi'')
         then 1 else 0)
        + (if str_includes lowerMsg ''delhi'' then 1 else 0)"
    unfolding shape by (simp add: collected)
  have maha: "count_list ?locs ''Maharashtra'' =
        (if ''Maharashtra'' \<in> set (allLocations MOCK_HOSPITALS)
            \<and> str_includes lowerMsg (toLowerCase ''Maharashtra'')
         then 1 else 0)
        + (if str_includes lowerMsg ''mumbai'' then 1 else 0)"
    unfolding shape by (simp add: collected)
  have karn: "count_list ?locs ''Karnataka'' =
        (if ''Karnataka'' \<in> set (allLocations MOCK_HOSPITALS)
            \<and> str_includes lowerMsg (toLowerCase ''Karnataka'')
         then 1 else 0)
        + (if str_includes lowerMsg ''bangalore'' \<or> str_includes lowerMsg ''bengaluru''
           then 1 else 0)"
    unfolding shape by (simp add: collected)
  show ?thesis
    using shape set_allLocations [of MOCK_HOSPITALS] distinct_allLocations [of MOCK_HOSPITALS]
      mem delhi maha karn
    by (intro conjI)
qed

theorem detected_locations_witness:
  "detectLocations toLowerCase_ascii exampleHospitals ''fever in delhi'' = [''Delhi'', ''Delhi'']
   \<and> str_includes ''fever in delhi'' (toLowerCase_ascii ''Delhi'')
   \<and> str_includes ''fever in delhi'' ''delhi''
   \<and> ''Delhi'' \<in> set (allLocations exampleHospitals)
   \<and> count_list (detectLocations toLowerCase_ascii exampleHospitals ''fever in delhi'')
        ''Delhi'' = 2
   \<and> state (exampleHospitals ! 0)
        \<in> set (detectLocations toLowerCase_ascii exampleHospitals ''fever in delhi'')"
proof -
  have all: "allLocations exampleHospitals =
      [''Delhi'', ''Maharashtra'', ''Karnataka'', ''Ansari Nagar, New Delhi'',
       ''Bandra, Mumbai'', ''New Delhi'', ''Bengaluru'', ''Saket'']"
    by code_simp
  have inc: "str_includes ''fever in delhi'' ''delhi''" by code_simp
  have inc': "str_includes ''fever in delhi'' (toLowerCase_ascii ''Delhi'')" by code_simp
  have mem: "''Delhi'' \<in> set (allLocations exampleHospitals)" unfolding all by simp
  have col: "filter (\<lambda>loc. str_includes ''fever in delhi'' (toLowerCase_ascii loc))
               (allLocations exampleHospitals) = [''Delhi'']"
    by code_simp
  have h0: "exampleHospitals ! 0 \<in> set exampleHospitals"
    by (simp add: exampleHospitals_def)
  have s0: "str_includes ''fever in delhi'' (toLowerCase_ascii (state (exampleHospitals ! 0)))"
    by code_simp
  note inst = detected_locations [of toLowerCase_ascii exampleHospitals "''fever in delhi''"]
  have locs: "detectLocations toLowerCase_ascii exampleHospitals ''fever in delhi'' =
      [''Delhi'', ''Delhi'']"
    using inst [THEN conjunct1] unfolding col by simp
  have dup: "count_list (detectLocations toLowerCase_ascii exampleHospitals ''fever in delhi'')
      ''Delhi'' = 2"
    using inst [THEN conjunct2, THEN conjunct2, THEN conjunct2, THEN conjunct2, THEN conjunct1]
      inc inc' mem
    by (simp only: if_True simp_thms one_add_one)
  have st0: "state (exampleHospitals ! 0)
               \<in> set (detectLocations toLowerCase_ascii exampleHospitals ''fever in delhi'')"
    using inst [THEN conjunct2, THEN conjunct2, THEN conjunct2, THEN conjunct1, THEN bspec,
        OF h0, THEN conjunct1] s0
    by (rule mp)
  show ?thesis
    using locs inc' inc mem dup st0 by (intro conjI)
qed

section \<open>Suggested hospitals\<close>

text \<open>
  C3. For a message without an emergency keyword in which a department is detected, the
  response carries suggested hospitals exactly when some hospital of the directory
  survives the filter of the specification (a department whose name contains the detected
  department and, when a location was detected, a state or location that contains one of
  the detected locations, case ignored). The suggestions are then the first three
  survivors at most, in directory order; when no hospital survives, the reply is the
  could-not-match text and carries no suggestions.
\<close>

theorem suggested_hospitals:
  assumes calm: "\<not> (\<exists>k \<in> set [''emergency'', ''accident'', ''ambulance'', ''bleeding''].
        str_includes (toLowerCase message) k)"
    and dept: "detectDept (toLowerCase message) = Some dept"
  shows "\<exists>response.
      ChatService_sendMessage toLowerCase hs message language = Resolved response
      \<and> (suggestedHospitals response \<noteq> None \<longleftrightarrow>
           spec_survivors toLowerCase hs dept
             (detectLocations toLowerCase hs (toLowerCase message)) \<noteq> [])
      \<and> (spec_survivors toLowerCase hs dept
             (detectLocations toLowerCase hs (toLowerCase message)) \<noteq> [] \<longrightarrow>
           suggestedHospitals response =
             Some (take 3 (spec_survivors toLowerCase hs dept
                             (detectLocations toLowerCase hs (toLowerCase message))))
           \<and> reply_text response =
               FOUND_TEXT dept (detectLocations toLowerCase hs (toLowerCase message)))
      \<and> (spec_survivors toLowerCase hs dept
             (detectLocations toLowerCase hs (toLowerCase message)) = [] \<longrightarrow>
           suggestedHospitals response = None
           \<and> reply_text response = NOT_FOUND_TEXT dept)"
proof -
  let ?locs = "detectLocations toLowerCase hs (toLowerCase message)"
  have t: "truthy (detectDept (toLowerCase message))"
    using dept by (rule detectDept_truthy)
  note quiet_response =
    not_emergency_response [where lc = toLowerCase and message = message, OF calm]
  show ?thesis
  proof (cases "spec_survivors toLowerCase hs dept ?locs = []")
    case True
    then have "ChatService_sendMessage toLowerCase hs message language =
        Resolved \<lparr>reply_text = NOT_FOUND_TEXT dept, suggestedHospitals = None,
                  suggestedDoctors = None, action = None\<rparr>"
      using t dept by (simp add: quiet_response Let_def relevantHospitals_spec)
    with True show ?thesis by simp
  next
    case False
    then have "ChatService_sendMessage toLowerCase hs message language =
        Resolved \<lparr>reply_text = FOUND_TEXT dept ?locs,
                  suggestedHospitals = Some (take 3 (spec_survivors toLowerCase hs dept ?locs)),
                  suggestedDoctors = None, action = None\<rparr>"
      using t dept
      by (simp add: quiet_response Let_def relevantHospitals_spec take3_empty)
    with False show ?thesis by simp
  qed
qed

theorem suggested_hospitals_witness:
  "\<not> (\<exists>k \<in> set [''emergency'', ''accident'', ''ambulance'', ''bleeding''].
        str_includes (toLowerCase_ascii ''Chest pain in Delhi'') k)
   \<and> detectDept (toLowerCase_ascii ''Chest pain in Delhi'') = Some ''Cardiology''
   \<and> spec_survivors toLowerCase_ascii exampleHospitals ''Cardiology''
         (detectLocations toLowerCase_ascii exampleHospitals
            (toLowerCase_ascii ''Chest pain in Delhi'')) \<noteq> []
   \<and> (\<exists>response.
         ChatService_sendMessage toLowerCase_ascii exampleHospitals ''Chest pain in Delhi''
           ''en'' = Resolved response
         \<and> suggestedHospitals response =
             Some [exampleHospitals ! 0, exampleHospitals ! 2, exampleHospitals ! 4])
   \<and> \<not> (\<exists>k \<in> set [''emergency'', ''accident'', ''ambulance'', ''bleeding''].
        str_includes (toLowerCase_ascii ''Skin rash, Mumbai'') k)
   \<and> detectDept (toLowerCase_ascii ''Skin rash, Mumbai'') = Some ''Dermatology''
   \<and> spec_survivors toLowerCase_ascii exampleHospitals ''Dermatology''
         (detectLocations toLowerCase_ascii exampleHospitals
            (toLowerCase_ascii ''Skin rash, Mumbai'')) = []
   \<and> (\<exists>response.
         ChatService_sendMessage toLowerCase_ascii exampleHospitals ''Skin rash, Mumbai''
           ''en'' = Resolved response
         \<and> suggestedHospitals response = None
         \<and> reply_text response = NOT_FOUND_TEXT ''Dermatology'')"
proof -
  have calm1: "\<not> (\<exists>k \<in> set [''emergency'', ''accident'', ''ambulance'', ''bleeding''].
        str_includes (toLowerCase_ascii ''Chest pain in Delhi'') k)"
    by code_simp
  have dept1: "detectDept (toLowerCase_ascii ''Chest pain in Delhi'') = Some ''Cardiology''"
    by code_simp
  have surv1: "spec_survivors toLowerCase_ascii exampleHospitals ''Cardiology''
         (detectLocations toLowerCase_ascii exampleHospitals
            (toLowerCase_ascii ''Chest pain in Delhi'')) =
       [exampleHospitals ! 0, exampleHospitals ! 2, exampleHospitals ! 4]"
    by code_simp
  have ne1: "spec_survivors toLowerCase_ascii exampleHospitals ''Cardiology''
         (detectLocations toLowerCase_ascii exampleHospitals
            (toLowerCase_ascii ''Chest pain in Delhi'')) \<noteq> []"
    unfolding surv1 by simp
  have res1: "\<exists>response.
         ChatService_sendMessage toLowerCase_ascii exampleHospitals ''Chest pain in Delhi''
           ''en'' = Resolved response
         \<and> suggestedHospitals response =
             Some [exampleHospitals ! 0, exampleHospitals ! 2, exampleHospitals ! 4]"
    using suggested_hospitals
      [where toLowerCase = toLowerCase_ascii and message = "''Chest pain in Delhi''"
         and dept = "''Cardiology''" and hs = exampleHospitals and language = "''en''",
       OF calm1 dept1]
    unfolding surv1 by auto
  have calm2: "\<not> (\<exists>k \<in> set [''emergency'', ''accident'', ''ambulance'', ''bleeding''].
        str_includes (toLowerCase_ascii ''Skin rash, Mumbai'') k)"
    by code_simp
  have dept2: "detectDept (toLowerCase_ascii ''Skin rash, Mumbai'') = Some ''Dermatology''"
    by code_simp
  have surv2: "spec_survivors toLowerCase_ascii exampleHospitals ''Dermatology''
         (detectLocations toLowerCase_ascii exampleHospitals
            (toLowerCase_ascii ''Skin rash, Mumbai'')) = []"
    by code_simp
  have res2: "\<exists>response.
         ChatService_sendMessage toLowerCase_ascii exampleHospitals ''Skin rash, Mumbai''
           ''en'' = Resolved response
         \<and> suggestedHospitals response = None
         \<and> reply_text response = NOT_FOUND_TEXT ''Dermatology''"
    using suggested_hospitals
      [where toLowerCase = toLowerCase_ascii and message = "''Skin rash, Mumbai''"
         and dept = "''Dermatology''" and hs = exampleHospitals and language = "''en''",
       OF calm2 dept2]
    unfolding surv2 by auto
  show ?thesis
    using calm1 dept1 ne1 res1 calm2 dept2 surv2 res2 by (intro conjI)
qed

section \<open>The fallback\<close>

text \<open>
  C5. A message whose lower-cased text contains no emergency keyword and no keyword of the
  symptom table is answered with the fixed fallback prompt, without suggested hospitals,
  without suggested doctors and without an action, whatever the directory holds and
  whatever locations the message names.
\<close>

theorem fallback_prompt:
  assumes calm: "\<not> (\<exists>k \<in> set [''emergency'', ''accident'', ''ambulance'', ''bleeding''].
        str_includes (toLowerCase message) k)"
    and nokey: "\<not> (\<exists>(key, d) \<in> set SYMPTOM_MAP.
        str_includes (toLowerCase message) key)"
  shows "ChatService_sendMessage toLowerCase hs message language =
           Resolved \<lparr>reply_text = FALLBACK_TEXT, suggestedHospitals = None,
                     suggestedDoctors = None, action = None\<rparr>"
proof -
  note quiet_response =
    not_emergency_response [where lc = toLowerCase and message = message, OF calm]
  have "detectDept (toLowerCase message) = None"
    using nokey by (auto simp: detectDept_def detectDept_loop_None)
  then show ?thesis
    by (simp add: quiet_response Let_def)
qed

theorem fallback_prompt_witness:
  "\<not> (\<exists>k \<in> set [''emergency'', ''accident'', ''ambulance'', ''bleeding''].
        str_includes (toLowerCase_ascii ''Hello from Delhi'') k)
   \<and> \<not> (\<exists>(key, d) \<in> set SYMPTOM_MAP.
        str_includes (toLowerCase_ascii ''Hello from Delhi'') key)
   \<and> detectLocations toLowerCase_ascii exampleHospitals (toLowerCase_ascii ''Hello from Delhi'') =
        [''Delhi'', ''Delhi'']
   \<and> ChatService_sendMessage toLowerCase_ascii exampleHospitals ''Hello from Delhi'' ''en'' =
        Resolved \<lparr>reply_text = FALLBACK_TEXT, suggestedHospitals = None,
                  suggestedDoctors = None, action = None\<rparr>"
proof -
  have calm: "\<not> (\<exists>k \<in> set [''emergency'', ''accident'', ''ambulance'', ''bleeding''].
        str_includes (toLowerCase_ascii ''Hello from Delhi'') k)"
    by code_simp
  have nokey: "\<not> (\<exists>(key, d) \<in> set SYMPTOM_MAP.
        str_includes (toLowerCase_ascii ''Hello from Delhi'') key)"
    by code_simp
  have locs: "detectLocations toLowerCase_ascii exampleHospitals
        (toLowerCase_ascii ''Hello from Delhi'') = [''Delhi'', ''Delhi'']"
    by code_simp
  show ?thesis
    using calm nokey locs
      fallback_prompt
        [where toLowerCase = toLowerCase_ascii and message = "''Hello from Delhi''"
           and hs = exampleHospitals and language = "''en''", OF calm nokey]
    by (intro conjI)
qed

section \<open>The language argument\<close>

text \<open>
  C6. The response to a message does not depend on the language code: for any two language
  codes the chat service settles in the same way with the same response.
\<close>

theorem language_noninterference:
  "ChatService_sendMessage toLowerCase hs message l1 =
   ChatService_sendMessage toLowerCase hs message l2"
  by (simp add: ChatService_sendMessage_def)

section \<open>No error path\<close>

text \<open>
  C7. On a directory whose hospitals have the properties of the type \<open>Hospital\<close>, the body
  of the chat service returns a response for every message and every language code: no
  property read, no method call and none of the loops throws, the \<open>forEach\<close> over the
  relevant hospitals included. So the promise of the call is never rejected. (The wait of
  800 ms is not part of the model.)
  Where a property is missing the body can throw: in the witness, a cardiology department
  without \<open>doctors\<close> makes the call for "Chest pain" throw a \<open>TypeError\<close>.
\<close>

theorem responder_always_resolves:
  assumes "list_all wellTyped_hospital MOCK_HOSPITALS"
  shows "\<exists>response.
           ChatService_sendMessage_rt toLowerCase MOCK_HOSPITALS message language =
             Inr response"
proof -
  obtain ts where ts: "MOCK_HOSPITALS = map erase_hospital ts"
    using assms wellTyped_directory_erase by blast
  obtain r where "ChatService_sendMessage toLowerCase ts message language = Resolved r"
    using ChatService_sendMessage_resolves by blast
  then have "ChatService_sendMessage_rt toLowerCase MOCK_HOSPITALS message language =
      Inr (erase_response r)"
    unfolding ts by (rule ChatService_sendMessage_rt_erase)
  then show ?thesis by (rule exI)
qed

theorem responder_always_resolves_witness:
  "list_all wellTyped_hospital (map erase_hospital exampleHospitals)
   \<and> (\<exists>response.
        ChatService_sendMessage_rt toLowerCase_ascii (map erase_hospital exampleHospitals)
          ''Chest pain in Delhi'' ''en'' = Inr response)
   \<and> \<not> list_all wellTyped_hospital brokenHospitals
   \<and> ChatService_sendMessage_rt toLowerCase_ascii brokenHospitals ''Chest pain'' ''en'' =
       Inl TypeError"
proof -
  have typed: "list_all wellTyped_hospital (map erase_hospital exampleHospitals)"
    by code_simp
  have broken: "\<not> list_all wellTyped_hospital brokenHospitals"
    by code_simp
  have throws: "ChatService_sendMessage_rt toLowerCase_ascii brokenHospitals ''Chest pain''
      ''en'' = Inl TypeError"
    by code_simp
  note inst = responder_always_resolves
    [where toLowerCase = toLowerCase_ascii and message = "''Chest pain in Delhi''"
       and language = "''en''", OF typed]
  show ?thesis
    using typed inst broken throws by (intro conjI)
qed

section \<open>Reset\<close>

text \<open>
  C8, as stated, fails where it says that a submission after the reset starts from a
  fresh, empty history. Reset Chat can be pressed while a call of the chat service is
  pending. The list is empty after the reset, but the reply of that call is appended when
  the call settles, and the next submission starts from a list that holds a reply from
  before the reset.
\<close>

theorem reset_with_pending_call_counterexample:
  "messages (chat (run toLowerCase_ascii exampleHospitals
      [Send ''Chest pain in Delhi'', ResetChat])) = []
   \<and> messages (chat (run toLowerCase_ascii exampleHospitals
      [Send ''Chest pain in Delhi'', ResetChat, Settle])) \<noteq> []
   \<and> messages (chat (run toLowerCase_ascii exampleHospitals
      [Send ''Chest pain in Delhi'', ResetChat, Settle, Send ''cough''])) =
       [\<lparr>role = assistant, content = FOUND_TEXT ''Cardiology'' [''Delhi'', ''Delhi''],
         suggestions = Some [exampleHospitals ! 0, exampleHospitals ! 2, exampleHospitals ! 4]\<rparr>,
        \<lparr>role = user, content = ''cough'', suggestions = None\<rparr>]"
  by code_simp

text \<open>
  C8, as the code has it. In every page that can be reached, the message list is empty
  after Reset Chat and the stored error is null. When no call of the chat service is
  pending at the reset, the list stays empty until the next submission, which starts from
  a fresh, empty history: after it the list holds the new user message only. When a call
  is pending at the reset, its reply is put on the emptied list when it settles.
\<close>

theorem reset_clears_messages:
  "messages (chat (run toLowerCase hs (events @ [ResetChat]))) = []
   \<and> error (chat (run toLowerCase hs (events @ [ResetChat]))) = None
   \<and> (inflight (run toLowerCase hs events) = [] \<and> quiet later \<and> mt \<noteq> [] \<longrightarrow>
        messages (chat (run toLowerCase hs (events @ [ResetChat] @ later))) = []
        \<and> messages (chat (run toLowerCase hs (events @ [ResetChat] @ later @ [Send mt]))) =
            [\<lparr>role = user, content = mt, suggestions = None\<rparr>])
   \<and> (inflight (run toLowerCase hs events) \<noteq> [] \<longrightarrow>
        (\<exists>response.
           hd (inflight (run toLowerCase hs events)) = Resolved response
           \<and> messages (chat (run toLowerCase hs (events @ [ResetChat, Settle]))) =
               [\<lparr>role = assistant, content = reply_text response,
                 suggestions = suggestedHospitals response\<rparr>]))"
proof -
  let ?p = "run toLowerCase hs events"
  let ?q = "step toLowerCase hs ?p ResetChat"
  have inv: "page_inv ?p" by (rule page_inv_run)
  have q: "run toLowerCase hs (events @ [ResetChat]) = ?q" by (rule run_snoc)
  have empty: "messages (chat ?q) = []" by (rule reset_empties)
  have "page_inv ?q" using inv by (rule page_inv_step)
  then have noerr: "error (chat ?q) = None" by (simp add: page_inv_def)
  have idle: "messages (chat (run toLowerCase hs (events @ [ResetChat] @ later))) = []
        \<and> messages (chat (run toLowerCase hs (events @ [ResetChat] @ later @ [Send mt]))) =
            [\<lparr>role = user, content = mt, suggestions = None\<rparr>]"
    if none: "inflight ?p = []" and later: "quiet later" and mt: "mt \<noteq> []"
  proof -
    let ?r = "foldl (step toLowerCase hs) ?q later"
    from inv none have "\<not> isLoading (chat ?p)" by (simp add: page_inv_def)
    then have "inflight ?q = []" "\<not> isLoading (chat ?q)"
      using none by (simp_all add: clearChat_def)
    with later empty have r: "messages (chat ?r) = []" "inflight ?r = []" "\<not> isLoading (chat ?r)"
      using quiet_keeps_empty [of later ?q toLowerCase hs] by simp_all
    have r1: "run toLowerCase hs (events @ [ResetChat] @ later) = ?r"
      using run_append [of toLowerCase hs "events @ [ResetChat]" later] q by simp
    have r2: "run toLowerCase hs (events @ [ResetChat] @ later @ [Send mt]) =
        step toLowerCase hs ?r (Send mt)"
      using run_snoc [of toLowerCase hs "events @ [ResetChat] @ later" "Send mt"] r1 by simp
    show ?thesis
      unfolding r1 r2 using r mt by (simp add: sendMessage_begin_def)
  qed
  have pending: "\<exists>response.
           hd (inflight ?p) = Resolved response
           \<and> messages (chat (run toLowerCase hs (events @ [ResetChat, Settle]))) =
               [\<lparr>role = assistant, content = reply_text response,
                 suggestions = suggestedHospitals response\<rparr>]"
    if some: "inflight ?p \<noteq> []"
  proof -
    from some inv obtain response calls where calls: "inflight ?p = Resolved response # calls"
      by (cases "inflight ?p") (auto simp: page_inv_def split: settled.splits)
    have "run toLowerCase hs (events @ [ResetChat, Settle]) = step toLowerCase hs ?q Settle"
      using run_snoc [of toLowerCase hs "events @ [ResetChat]" Settle] q by simp
    then have "messages (chat (run toLowerCase hs (events @ [ResetChat, Settle]))) =
        [\<lparr>role = assistant, content = reply_text response,
          suggestions = suggestedHospitals response\<rparr>]"
      using calls by (simp add: clearChat_def)
    with calls show ?thesis by simp
  qed
  show ?thesis
    unfolding q using empty noerr idle pending by blast
qed

theorem reset_clears_messages_witness:
  "inflight (run toLowerCase_ascii exampleHospitals [Send ''Chest pain in Delhi'', Settle]) = []
   \<and> quiet [SelectLanguage ''hi'', Settle]
   \<and> messages (chat (run toLowerCase_ascii exampleHospitals
        ([Send ''Chest pain in Delhi'', Settle] @ [ResetChat]))) = []
   \<and> error (chat (run toLowerCase_ascii exampleHospitals
        ([Send ''Chest pain in Delhi'', Settle] @ [ResetChat]))) = None
   \<and> messages (chat (run toLowerCase_ascii exampleHospitals
        ([Send ''Chest pain in Delhi'', Settle] @ [ResetChat]
           @ [SelectLanguage ''hi'', Settle] @ [Send ''cough'']))) =
       [\<lparr>role = user, content = ''cough'', suggestions = None\<rparr>]"
proof -
  have none: "inflight (run toLowerCase_ascii exampleHospitals
      [Send ''Chest pain in Delhi'', Settle]) = []"
    by code_simp
  have later: "quiet [SelectLanguage ''hi'', Settle]"
    by code_simp
  have mt: "''cough'' \<noteq> []" by simp
  note inst = reset_clears_messages
    [where toLowerCase = toLowerCase_ascii and hs = exampleHospitals
       and events = "[Send ''Chest pain in Delhi'', Settle]"
       and later = "[SelectLanguage ''hi'', Settle]" and mt = "''cough''"]
  have fresh: "messages (chat (run toLowerCase_ascii exampleHospitals
        ([Send ''Chest pain in Delhi'', Settle] @ [ResetChat]
           @ [SelectLanguage ''hi'', Settle] @ [Send ''cough'']))) =
       [\<lparr>role = user, content = ''cough'', suggestions = None\<rparr>]"
    using inst [THEN conjunct2, THEN conjunct2, THEN conjunct1, THEN mp,
        OF conjI [OF none conjI [OF later mt]], THEN conjunct2] .
  show ?thesis
    using none later inst [THEN conjunct1] inst [THEN conjunct2, THEN conjunct1] fresh
    by (intro conjI)
qed

section \<open>A rejected call\<close>

text \<open>
  C9. When the call of the chat service made by a submission is rejected, the user message
  appended at the start of the submission stays in the list, no assistant message is
  appended, the error is set to the message of the thrown error (or to the fixed text when
  the thrown value is not an error object) and the loading flag is cleared. This holds for
  the state at the start of the submission and for any state \<open>pending\<close> the session is in
  when the call settles. Every submission clears the stored error before it calls the chat
  service, and so does \<open>clearError\<close>.
\<close>

theorem rejected_submit:
  "sendMessage_settle (sendMessage_begin st userMessage) (Rejected e) =
     st\<lparr>messages := messages st @ [\<lparr>role = user, content = userMessage, suggestions = None\<rparr>],
        isLoading := False,
        error := Some (errorMessage e)\<rparr>
   \<and> messages (sendMessage_settle pending (Rejected e)) = messages pending
   \<and> error (sendMessage_settle pending (Rejected e)) = Some (errorMessage e)
   \<and> isLoading (sendMessage_settle pending (Rejected e)) = False
   \<and> error (sendMessage_begin st userMessage) = None
   \<and> error (clearError pending) = None"
  by (simp add: sendMessage_begin_def clearError_def)

section \<open>The action field\<close>

text \<open>
  C10. A response of the chat service never has the action BOOKING_REDIRECT; when it has
  an action, the action is AMBULANCE_DISPATCH and the response carries no suggested
  hospitals.
\<close>

theorem action_only_ambulance_dispatch:
  assumes "ChatService_sendMessage toLowerCase hs message language = Resolved response"
  shows "action response \<noteq> Some BOOKING_REDIRECT
         \<and> (action response \<noteq> None \<longrightarrow>
              action response = Some AMBULANCE_DISPATCH \<and> suggestedHospitals response = None)"
  using assms by (auto simp: ChatService_sendMessage_def Let_def split: if_splits)

theorem action_only_ambulance_dispatch_witness:
  "ChatService_sendMessage toLowerCase_ascii exampleHospitals
     ''My father is BLEEDING, chest pain, Delhi'' ''hi'' =
     Resolved \<lparr>reply_text = EMERGENCY_TEXT, suggestedHospitals = None,
               suggestedDoctors = None, action = Some AMBULANCE_DISPATCH\<rparr>
   \<and> action \<lparr>reply_text = EMERGENCY_TEXT, suggestedHospitals = None,
               suggestedDoctors = (None :: string list option),
               action = Some AMBULANCE_DISPATCH\<rparr> \<noteq> Some BOOKING_REDIRECT
   \<and> action \<lparr>reply_text = EMERGENCY_TEXT, suggestedHospitals = None,
               suggestedDoctors = (None :: string list option),
               action = Some AMBULANCE_DISPATCH\<rparr> \<noteq> None"
proof -
  have sent: "ChatService_sendMessage toLowerCase_ascii exampleHospitals
        ''My father is BLEEDING, chest pain, Delhi'' ''hi'' =
     Resolved \<lparr>reply_text = EMERGENCY_TEXT, suggestedHospitals = None,
               suggestedDoctors = None, action = Some AMBULANCE_DISPATCH\<rparr>"
    by code_simp
  from action_only_ambulance_dispatch [OF sent] sent show ?thesis by simp
qed

end
